theory Spec2Isabelle
  imports Complex_Main "HOL-Library.Sublist"
begin

text \<open>
  A model of the impact classification and remediation pipeline of the analysis extension:
  the unified-diff extraction and application of \<open>analysis/fixes.py\<close>, the path helpers of
  \<open>utils/helpers.py\<close>, the batch refinement of \<open>analysis/refinement.py\<close> and the refinement
  loop and final deduplication of \<open>main.py\<close>. Exceptions are values of sum types, the answers
  of the language model and of the disk are parameters, and loops are recursive functions.
\<close>

section \<open>Python string primitives\<close>

text \<open>
  A Python \<open>str\<close> is modelled as a \<open>string\<close> whose characters stand for the code points
  0..255. The functions below are the parts of \<open>str\<close> the program calls, restricted to
  that range (U+2028 and U+2029, the two line boundaries above it, do not occur).
\<close>

abbreviation LF :: char where "LF \<equiv> CHR 0x0A"
abbreviation CR :: char where "CR \<equiv> CHR 0x0D"

definition startswith :: "string \<Rightarrow> string \<Rightarrow> bool" where
  \<comment> \<open>\<open>s.startswith(p)\<close>, written \<open>startswith p s\<close>\<close>
  "startswith p s = (take (length p) s = p)"

fun contains_str :: "string \<Rightarrow> string \<Rightarrow> bool" where
  \<comment> \<open>\<open>sub in s\<close>, written \<open>contains_str sub s\<close>\<close>
  "contains_str sub [] = (sub = [])"
| "contains_str sub (c # cs) = (startswith sub (c # cs) \<or> contains_str sub cs)"

definition is_linebreak :: "char \<Rightarrow> bool" where
  \<comment> \<open>the line boundaries of \<open>str.splitlines\<close> below U+0100\<close>
  "is_linebreak c = (c \<in> {LF, CR, CHR 0x0B, CHR 0x0C, CHR 0x1C, CHR 0x1D, CHR 0x1E, CHR 0x85})"

definition is_space :: "char \<Rightarrow> bool" where
  \<comment> \<open>\<open>str.isspace\<close> below U+0100\<close>
  "is_space c = (c \<in> {CHR 0x09, LF, CHR 0x0B, CHR 0x0C, CR, CHR 0x1C, CHR 0x1D, CHR 0x1E,
                       CHR 0x1F, CHR 0x20, CHR 0x85, CHR 0xA0})"

fun splitlines_from :: "bool \<Rightarrow> string \<Rightarrow> string \<Rightarrow> string list" where
  \<comment> \<open>\<open>cur\<close> is the line read so far; \<open>keepends\<close> keeps the boundary on the line\<close>
  "splitlines_from keepends cur [] = (if cur = [] then [] else [cur])"
| "splitlines_from keepends cur [c] =
     (if is_linebreak c then [cur @ (if keepends then [c] else [])] else [cur @ [c]])"
| "splitlines_from keepends cur (c # d # cs) =
     (if c = CR \<and> d = LF then
        (cur @ (if keepends then [c, d] else [])) # splitlines_from keepends [] cs
      else if is_linebreak c then
        (cur @ (if keepends then [c] else [])) # splitlines_from keepends [] (d # cs)
      else splitlines_from keepends (cur @ [c]) (d # cs))"

definition splitlines :: "string \<Rightarrow> string list" where
  "splitlines s = splitlines_from False [] s"

definition splitlines_keepends :: "string \<Rightarrow> string list" where
  "splitlines_keepends s = splitlines_from True [] s"

definition lstrip :: "string \<Rightarrow> string" where
  "lstrip s = dropWhile is_space s"

definition rstrip :: "string \<Rightarrow> string" where
  "rstrip s = rev (dropWhile is_space (rev s))"

definition strip :: "string \<Rightarrow> string" where
  "strip s = rstrip (lstrip s)"

definition lstrip_chars :: "string \<Rightarrow> string \<Rightarrow> string" where
  \<comment> \<open>\<open>s.lstrip(chars)\<close>, written \<open>lstrip_chars chars s\<close>\<close>
  "lstrip_chars chars s = dropWhile (\<lambda>c. c \<in> set chars) s"

definition rstrip_chars :: "string \<Rightarrow> string \<Rightarrow> string" where
  \<comment> \<open>\<open>s.rstrip(chars)\<close>, written \<open>rstrip_chars chars s\<close>\<close>
  "rstrip_chars chars s = rev (dropWhile (\<lambda>c. c \<in> set chars) (rev s))"

fun join_str :: "string \<Rightarrow> string list \<Rightarrow> string" where
  \<comment> \<open>\<open>sep.join(parts)\<close>\<close>
  "join_str sep [] = []"
| "join_str sep [x] = x"
| "join_str sep (x # y # ys) = x @ sep @ join_str sep (y # ys)"

definition is_digit :: "char \<Rightarrow> bool" where
  \<comment> \<open>the regular expression class \<open>\d\<close> below U+0100\<close>
  "is_digit c = (c \<in> set ''0123456789'')"

definition digit_value :: "char \<Rightarrow> nat" where
  "digit_value c = of_char c - of_char CHR ''0''"

definition int_of_digits :: "string \<Rightarrow> nat" where
  \<comment> \<open>the number a run of decimal digits denotes\<close>
  "int_of_digits s = foldl (\<lambda>acc c. 10 * acc + digit_value c) 0 s"

definition int_max_str_digits :: nat where
  \<comment> \<open>\<open>sys.get_int_max_str_digits()\<close>, at the interpreter's default\<close>
  "int_max_str_digits = 4300"


section \<open>Applying a unified diff (analysis/fixes.py)\<close>

datatype diff_error =
    MissingHeaders          \<comment> \<open>"Generated diff is missing required headers"\<close>
  | NoHunks                 \<comment> \<open>"Diff output does not contain any hunks"\<close>
  | HunkOverlap             \<comment> \<open>"Diff hunk overlaps with previous content"\<close>
  | ContextExceeds          \<comment> \<open>"Context line exceeds original file length"\<close>
  | UnrecognizedLine string \<comment> \<open>"Unrecognized diff line: ..."\<close>
  | IntTooLong              \<comment> \<open>"Exceeds the limit (4300 digits) for integer string conversion"\<close>

definition py_int :: "string \<Rightarrow> diff_error + nat" where
  \<comment> \<open>\<open>int(s)\<close> on a non-empty run of decimal digits: a \<open>ValueError\<close> when the run is
      longer than the digit limit\<close>
  "py_int s = (if length s > int_max_str_digits then Inl IntTooLong else Inr (int_of_digits s))"

definition skip_count :: "string \<Rightarrow> string" where
  \<comment> \<open>the optional group \<open>(?:,\d+)?\<close>: the rest of the text after it\<close>
  "skip_count r =
     (case r of
        [] \<Rightarrow> []
      | c # cs \<Rightarrow> if c = CHR '','' \<and> takeWhile is_digit cs \<noteq> [] then dropWhile is_digit cs else r)"

definition match_hunk_header :: "string \<Rightarrow> string option" where
  \<comment> \<open>\<open>re.match(r"@@ -(\d+)(?:,\d+)? \+(\d+)(?:,\d+)? @@", line)\<close>: \<open>match.group(1)\<close>
      when the line matches, \<open>None\<close> when it does not\<close>
  "match_hunk_header line =
     (if \<not> startswith ''@@ -'' line then None
      else
        let r1 = drop 4 line; d1 = takeWhile is_digit r1; r2 = skip_count (dropWhile is_digit r1)
        in if d1 = [] \<or> \<not> startswith '' +'' r2 then None
           else
             let r3 = drop 2 r2; d2 = takeWhile is_digit r3; r4 = skip_count (dropWhile is_digit r3)
             in if d2 = [] \<or> \<not> startswith '' @@'' r4 then None
                else Some d1)"

definition no_newline_marker :: string where
  "no_newline_marker = CHR 0x5C # '' No newline at end of file''"

definition hunk_header ::
  "string list \<Rightarrow> string \<Rightarrow> string list \<Rightarrow> nat \<Rightarrow> diff_error + (string list \<times> nat)" where
  \<comment> \<open>the body of \<open>if line.startswith('@@')\<close> up to the inner loop: the new
      \<open>(patched_lines, orig_index)\<close>\<close>
  "hunk_header original_lines line patched_lines orig_index =
     (case match_hunk_header line of
        None \<Rightarrow> Inr (patched_lines, orig_index)
      | Some group1 \<Rightarrow>
          (case py_int group1 of
             Inl e \<Rightarrow> Inl e
           | Inr start_line \<Rightarrow>
               let hunk_start = max start_line 1 - 1
               in if hunk_start < orig_index then Inl HunkOverlap
                  else Inr (patched_lines @ drop orig_index (take hunk_start original_lines),
                            hunk_start)))"

fun hunk_body ::
  "string list \<Rightarrow> string list \<Rightarrow> string list \<Rightarrow> nat
     \<Rightarrow> diff_error + (string list \<times> string list \<times> nat)" where
  \<comment> \<open>the inner \<open>while\<close>: the diff lines left when it stops, \<open>patched_lines\<close> and
      \<open>orig_index\<close>\<close>
  "hunk_body original_lines [] patched_lines orig_index = Inr ([], patched_lines, orig_index)"
| "hunk_body original_lines (hunk_line # rest) patched_lines orig_index =
     (if startswith ''@@'' hunk_line then Inr (hunk_line # rest, patched_lines, orig_index)
      else if startswith ''---'' hunk_line \<or> startswith ''+++'' hunk_line then
        hunk_body original_lines rest patched_lines orig_index
      else if startswith no_newline_marker hunk_line then
        hunk_body original_lines rest
          (if patched_lines \<noteq> [] then
             butlast patched_lines @ [rstrip_chars [LF] (last patched_lines)]
           else patched_lines)
          orig_index
      else if startswith '' '' hunk_line then
        (if orig_index \<ge> length original_lines then Inl ContextExceeds
         else hunk_body original_lines rest
                (patched_lines @ [original_lines ! orig_index]) (orig_index + 1))
      else if startswith ''-'' hunk_line then
        hunk_body original_lines rest patched_lines (orig_index + 1)
      else if startswith ''+'' hunk_line then
        hunk_body original_lines rest (patched_lines @ [drop 1 hunk_line @ [LF]]) orig_index
      else if strip hunk_line = [] then
        hunk_body original_lines rest (patched_lines @ [[LF]]) orig_index
      else Inl (UnrecognizedLine hunk_line))"

lemma hunk_body_length:
  "hunk_body original_lines ls p i = Inr (ls', p', i') \<Longrightarrow> length ls' \<le> length ls"
proof (induction ls arbitrary: p i)
  case Nil
  then show ?case by simp
next
  case (Cons l ls)
  from Cons.prems show ?case
    by (auto split: if_splits dest!: Cons.IH)
qed

function apply_loop ::
  "string list \<Rightarrow> string list \<Rightarrow> string list \<Rightarrow> nat \<Rightarrow> diff_error + (string list \<times> nat)" where
  \<comment> \<open>the outer \<open>while i < len(diff_lines)\<close>, on the diff lines from \<open>i\<close> on\<close>
  "apply_loop original_lines [] patched_lines orig_index = Inr (patched_lines, orig_index)"
| "apply_loop original_lines (line # rest) patched_lines orig_index =
     (if startswith ''---'' line \<or> startswith ''+++'' line then
        apply_loop original_lines rest patched_lines orig_index
      else if startswith ''@@'' line then
        (case hunk_header original_lines line patched_lines orig_index of
           Inl e \<Rightarrow> Inl e
         | Inr (p, i) \<Rightarrow>
             (case hunk_body original_lines rest p i of
                Inl e \<Rightarrow> Inl e
              | Inr (rest', p', i') \<Rightarrow> apply_loop original_lines rest' p' i'))
      else apply_loop original_lines rest patched_lines orig_index)"
  by pat_completeness auto
termination
  by (relation "measure (\<lambda>(original_lines, ls, p, i). length ls)")
     (auto dest: hunk_body_length)

definition apply_unified_diff :: "string \<Rightarrow> string \<Rightarrow> diff_error + string" where
  "apply_unified_diff original_content diff_text =
     (if diff_text = [] then Inr original_content
      else
        let diff_lines = splitlines diff_text
        in if \<not> list_ex (startswith ''@@'') diff_lines then
             (if contains_str ''---'' diff_text \<and> contains_str ''+++'' diff_text then
                Inr original_content
              else Inl NoHunks)
           else
             let original_lines = splitlines_keepends original_content
             in case apply_loop original_lines diff_lines [] 0 of
                  Inl e \<Rightarrow> Inl e
                | Inr (patched_lines, orig_index) \<Rightarrow>
                    Inr (concat (patched_lines @ drop orig_index original_lines)))"


section \<open>The text of a unified diff\<close>







definition consumes :: "string \<Rightarrow> bool" where
  "consumes l = ((startswith '' '' l \<or> startswith ''-'' l) \<and> \<not> startswith ''---'' l)"

definition advance :: "string list \<Rightarrow> nat" where
  "advance ls = length (filter consumes ls)"





section \<open>Extracting the diff from the model output (analysis/fixes.py)\<close>

definition fence :: string where
  "fence = replicate 3 (CHR 0x60)"

fun find_closing :: "nat \<Rightarrow> string list \<Rightarrow> nat option" where
  \<comment> \<open>the \<open>for idx, line in enumerate(lines[1:], start=1)\<close> loop: \<open>closing_index\<close>\<close>
  "find_closing idx [] = None"
| "find_closing idx (line # ls) =
     (if startswith fence (strip line) then Some idx else find_closing (idx + 1) ls)"

definition unfence :: "string \<Rightarrow> string" where
  \<comment> \<open>the \<open>if text.startswith("```")\<close> block: the new \<open>text\<close>\<close>
  "unfence text =
     (if startswith fence text then
        let lines = splitlines text
        in case find_closing 1 (drop 1 lines) of
             Some closing_index \<Rightarrow> join_str [LF] (drop 1 (take closing_index lines))
           | None \<Rightarrow> join_str [LF] (drop 1 lines)
      else text)"

fun clean_lines :: "string list \<Rightarrow> string list \<Rightarrow> string list" where
  \<comment> \<open>the \<open>for line in text.splitlines()\<close> loop, \<open>cleaned_lines\<close> first\<close>
  "clean_lines cleaned_lines [] = cleaned_lines"
| "clean_lines cleaned_lines (line # ls) =
     (let stripped = strip line
      in if stripped = [] \<and> cleaned_lines \<noteq> [] \<and> last cleaned_lines = [] then
           clean_lines cleaned_lines ls
         else if startswith ''diff --git'' stripped \<or> startswith ''index '' stripped then
           clean_lines cleaned_lines ls
         else clean_lines (cleaned_lines @ [line]) ls)"

definition diff_normalized :: "string \<Rightarrow> string" where
  \<comment> \<open>the value of \<open>normalized\<close> for the stripped output \<open>text\<close>\<close>
  "diff_normalized text = strip (join_str [LF] (clean_lines [] (splitlines (unfence text))))"


definition extract_diff_content :: "string \<Rightarrow> diff_error + string" where
  "extract_diff_content raw_output =
     (let text = strip raw_output
      in if text = [] then Inr []
         else
           let normalized = diff_normalized text
           in if normalized \<noteq> [] \<and>
                 (\<not> contains_str ''---'' normalized \<or> \<not> contains_str ''+++'' normalized)
              then Inl MissingHeaders
              else Inr normalized)"


section \<open>Paths (utils/helpers.py)\<close>

text \<open>
  The platform is POSIX: \<open>os.sep\<close> is \<open>/\<close>, and \<open>os.path.normpath\<close>, \<open>os.path.join\<close>
  and \<open>os.path.basename\<close> are the functions of the standard library's \<open>posixpath\<close>.
  What the program asks of the disk is a record of oracles.
\<close>

fun split_from :: "char \<Rightarrow> string \<Rightarrow> string \<Rightarrow> string list" where
  \<comment> \<open>\<open>s.split(sep)\<close> for a one-character separator; \<open>cur\<close> is the part read so far\<close>
  "split_from sepc cur [] = [cur]"
| "split_from sepc cur (c # cs) =
     (if c = sepc then cur # split_from sepc [] cs else split_from sepc (cur @ [c]) cs)"

definition split_sep :: "string \<Rightarrow> string list" where
  "split_sep s = split_from (CHR ''/'') [] s"

fun norm_comps :: "nat \<Rightarrow> string list \<Rightarrow> string list \<Rightarrow> string list" where
  \<comment> \<open>the \<open>for comp in comps\<close> loop of \<open>normpath\<close>, \<open>new_comps\<close> second\<close>
  "norm_comps initial_slashes new_comps [] = new_comps"
| "norm_comps initial_slashes new_comps (part # comps) =
     (if part = [] \<or> part = ''.'' then norm_comps initial_slashes new_comps comps
      else if part \<noteq> ''..'' \<or> (initial_slashes = 0 \<and> new_comps = [])
              \<or> (new_comps \<noteq> [] \<and> last new_comps = ''..'') then
        norm_comps initial_slashes (new_comps @ [part]) comps
      else if new_comps \<noteq> [] then norm_comps initial_slashes (butlast new_comps) comps
      else norm_comps initial_slashes new_comps comps)"

definition normpath :: "string \<Rightarrow> string" where
  "normpath p =
     (if p = [] then ''.''
      else
        let initial_slashes =
              (if startswith ''/'' p then
                 (if startswith ''//'' p \<and> \<not> startswith ''///'' p then 2 else 1)
               else (0::nat));
            comps = norm_comps initial_slashes [] (split_sep p);
            joined = replicate initial_slashes (CHR ''/'') @ join_str ''/'' comps
        in if joined = [] then ''.'' else joined)"

definition path_join :: "string \<Rightarrow> string \<Rightarrow> string" where
  \<comment> \<open>\<open>os.path.join(a, b)\<close>\<close>
  "path_join a b =
     (if startswith ''/'' b then b
      else if a = [] \<or> last a = CHR ''/'' then a @ b
      else a @ ''/'' @ b)"

definition basename :: "string \<Rightarrow> string" where
  \<comment> \<open>\<open>os.path.basename(p)\<close>: what follows the last \<open>/\<close>\<close>
  "basename p = rev (takeWhile (\<lambda>c. c \<noteq> CHR ''/'') (rev p))"

definition normalize_path :: "string \<Rightarrow> string" where
  "normalize_path p = normpath p"

definition safe_join_path :: "string \<Rightarrow> string \<Rightarrow> string" where
  "safe_join_path base p = normalize_path (path_join base p)"

record disk =
  path_exists :: "string \<Rightarrow> bool"                       \<comment> \<open>\<open>os.path.exists\<close>\<close>
  path_isdir :: "string \<Rightarrow> bool"                        \<comment> \<open>\<open>os.path.isdir\<close>\<close>
  rglob :: "string \<Rightarrow> string \<Rightarrow> string list option"      \<comment> \<open>\<open>Path(root).rglob(name)\<close>; \<open>None\<close>: \<open>OSError\<close>\<close>
  relpath :: "string \<Rightarrow> string \<Rightarrow> string"                \<comment> \<open>\<open>os.path.relpath\<close> of a non-empty path\<close>
  similarity :: "string \<Rightarrow> string \<Rightarrow> real"              \<comment> \<open>\<open>SequenceMatcher(None, a, b).ratio()\<close>\<close>
  read_file :: "string \<Rightarrow> string option"                 \<comment> \<open>\<open>open(p).read()\<close>; \<open>None\<close>: it raises\<close>

fun dedup_segments :: "string list \<Rightarrow> string list \<Rightarrow> string list" where
  \<comment> \<open>the \<open>for seg in segments\<close> loop, \<open>dedup_segments\<close> first\<close>
  "dedup_segments acc [] = acc"
| "dedup_segments acc (seg # segs) =
     (if acc \<noteq> [] \<and> last acc = seg then dedup_segments acc segs
      else dedup_segments (acc @ [seg]) segs)"

fun best_match_loop ::
  "disk \<Rightarrow> string \<Rightarrow> string \<Rightarrow> string \<Rightarrow> real \<Rightarrow> string list \<Rightarrow> string" where
  \<comment> \<open>the \<open>for match in matches\<close> loop; \<open>relpath\<close> raises \<open>ValueError\<close> on an empty path\<close>
  "best_match_loop d root_norm normalized best_match best_score [] = best_match"
| "best_match_loop d root_norm normalized best_match best_score (m # matches) =
     (if m = [] then best_match_loop d root_norm normalized best_match best_score matches
      else
        let rel = normalize_path (relpath d m root_norm);
            score = similarity d normalized rel
        in if score > best_score then best_match_loop d root_norm normalized rel score matches
           else best_match_loop d root_norm normalized best_match best_score matches)"

definition basename_search :: "disk \<Rightarrow> string \<Rightarrow> string \<Rightarrow> string" where
  \<comment> \<open>\<open>resolve_repo_path\<close> from \<open>basename = os.path.basename(normalized)\<close> on\<close>
  "basename_search d root_norm normalized =
     (let bn = basename normalized
      in if bn = [] then normalized
         else
           let matches = (case rglob d root_norm bn of None \<Rightarrow> [] | Some ms \<Rightarrow> ms)
           in if matches = [] then normalized
              else best_match_loop d root_norm normalized normalized (- 1) matches)"

definition resolve_repo_path :: "disk \<Rightarrow> string \<Rightarrow> string \<Rightarrow> string" where
  "resolve_repo_path d root_path candidate_path =
     (let root_norm = normalize_path root_path;
          normalized = normalize_path candidate_path;
          full_path = safe_join_path root_norm normalized
      in if path_exists d full_path then normalized
         else
           let trimmed = lstrip_chars ''./'' normalized;
               trimmed_full = safe_join_path root_norm trimmed
           in if path_exists d trimmed_full then trimmed
              else
                let segments = filter (\<lambda>seg. seg \<noteq> [] \<and> seg \<noteq> ''.'') (split_sep normalized);
                    dedup = dedup_segments [] segments;
                    dedup_path = join_str ''/'' dedup;
                    trimmed_dedup = lstrip_chars ''./'' dedup_path
                in if segments \<noteq> [] \<and> dedup \<noteq> segments
                      \<and> path_exists d (safe_join_path root_norm dedup_path) then dedup_path
                   else if segments \<noteq> [] \<and> dedup \<noteq> segments
                      \<and> path_exists d (safe_join_path root_norm trimmed_dedup) then trimmed_dedup
                   else basename_search d root_norm normalized)"

definition is_abs :: "string \<Rightarrow> bool" where
  \<comment> \<open>\<open>os.path.isabs\<close>\<close>
  "is_abs p = startswith ''/'' p"

definition compute_path_depth :: "disk \<Rightarrow> string \<Rightarrow> string \<Rightarrow> nat" where
  "compute_path_depth d p root_dir =
     (let rel = relpath d (normalize_path p) (normalize_path root_dir)
      in if rel = ''.'' then 0 else count_list rel (CHR ''/'') + 1)"

definition is_folder_at_max_depth :: "disk \<Rightarrow> string \<Rightarrow> string \<Rightarrow> int \<Rightarrow> bool" where
  "is_folder_at_max_depth d p root_path max_depth =
     (let full_path = (if is_abs p then normalize_path p else safe_join_path root_path p)
      in path_isdir d full_path \<and> int (compute_path_depth d p root_path) = max_depth)"


section \<open>Generating a fix (analysis/fixes.py)\<close>

datatype confidence = High | Medium | Low

datatype impact_kind = Direct | Indirect

record impact_analysis =
  impact :: impact_kind
  impact_description :: string

record update_assessment =
  needs_update :: bool
  update_rationale :: string

record fix_recommendation =
  recommended_actions :: "string list"

record detailed_impact_report =
  report_path :: string
  report_related :: bool
  report_confidence :: confidence
  analysis :: impact_analysis
  diagnosis :: update_assessment
  recommendations :: fix_recommendation

datatype output_style = FullFile | Diff

type_synonym usage = "(string \<times> nat) list"

type_synonym commit_diff = "(string \<times> string) list"

record fix_prompt =
  \<comment> \<open>what \<open>_build_fix_prompt\<close> is given\<close>
  prompt_file_path :: string
  prompt_original_content :: string
  prompt_impact_report :: detailed_impact_report
  prompt_commit_diff :: "commit_diff option"
  prompt_requested_path :: string
  prompt_style :: output_style

record chat_response =
  content :: string
  response_usage :: "usage option"

record code_fix_generator =
  root_path :: string
  output_style :: output_style
  fix_chat :: bool          \<comment> \<open>\<open>self._fix_chat is not None\<close>\<close>

record model_service =
  create_chat :: bool                                   \<comment> \<open>\<open>_create_chat_with_retry\<close> returns\<close>
  send_message :: "fix_prompt \<Rightarrow> chat_response option"    \<comment> \<open>\<open>None\<close>: \<open>chat.send_message\<close> raises\<close>

datatype generation_error =
    SendFailed
  | DiffFailed diff_error
  | TooShort                \<comment> \<open>"Generated fix appears to be empty or too short"\<close>

datatype fix_error =
    NoUpdateNeeded string               \<comment> \<open>\<open>ValueError\<close>: the file does not need updates\<close>
  | CouldNotRead string                 \<comment> \<open>\<open>FileNotFoundError\<close>\<close>
  | ChatCreationFailed
  | FailedToGenerate string generation_error  \<comment> \<open>\<open>RuntimeError\<close>\<close>

datatype fix_event =
    ResolvedPath string
  | ReadFile string
  | CreatedChat
  | SentMessage fix_prompt

datatype fix_result =
    FixedContent string
  | FixedWithUsage string "usage option"
  | FixedWithUsageAndDiff string "usage option" "string option"

definition fixed_from_output ::
  "output_style \<Rightarrow> string \<Rightarrow> string \<Rightarrow> diff_error + (string \<times> string option)" where
  \<comment> \<open>\<open>fixed_content\<close> and \<open>diff_output\<close> from \<open>raw_output\<close>\<close>
  "fixed_from_output style original_content raw_output =
     (if style = Diff then
        (case extract_diff_content raw_output of
           Inl e \<Rightarrow> Inl e
         | Inr diff_output \<Rightarrow>
             (case apply_unified_diff original_content diff_output of
                Inl e \<Rightarrow> Inl e
              | Inr fixed_content \<Rightarrow> Inr (fixed_content, Some diff_output)))
      else Inr (raw_output, None))"

definition fix_from_response ::
  "output_style \<Rightarrow> bool \<Rightarrow> string \<Rightarrow> chat_response \<Rightarrow> generation_error + fix_result" where
  \<comment> \<open>the \<open>try\<close> block from \<open>raw_output = response.content.strip()\<close> to its \<open>return\<close>\<close>
  "fix_from_response style include_usage original_content response =
     (let raw_output = strip (content response)
      in case fixed_from_output style original_content raw_output of
           Inl e \<Rightarrow> Inl (DiffFailed e)
         | Inr (fixed_content, diff_output) \<Rightarrow>
             if style = FullFile \<and> (fixed_content = [] \<or> length fixed_content < 10) then
               Inl TooShort
             else if include_usage then
               (if style = Diff then
                  Inr (FixedWithUsageAndDiff fixed_content (response_usage response) diff_output)
                else Inr (FixedWithUsage fixed_content (response_usage response)))
             else Inr (FixedContent fixed_content))"

definition generate_fix ::
  "code_fix_generator \<Rightarrow> disk \<Rightarrow> model_service \<Rightarrow> string \<Rightarrow> detailed_impact_report
     \<Rightarrow> commit_diff option \<Rightarrow> bool \<Rightarrow> (fix_error + fix_result) \<times> fix_event list" where
  \<comment> \<open>the result, and what was asked of the disk and of the model on the way, in order\<close>
  "generate_fix gen d svc file_path impact_report commit_diff include_usage =
     (if \<not> needs_update (diagnosis impact_report) then (Inl (NoUpdateNeeded file_path), [])
      else
        let requested_path = file_path;
            resolved_path = resolve_repo_path d (root_path gen) file_path;
            impact_report =
              (if resolved_path \<noteq> file_path then impact_report\<lparr>report_path := resolved_path\<rparr>
               else impact_report);
            file_path = resolved_path;
            full_path = safe_join_path (root_path gen) file_path;
            ev_read = [ResolvedPath requested_path, ReadFile full_path]
        in case read_file d full_path of
             None \<Rightarrow> (Inl (CouldNotRead file_path), ev_read)
           | Some original_content \<Rightarrow>
               let prompt = \<lparr>prompt_file_path = file_path,
                             prompt_original_content = original_content,
                             prompt_impact_report = impact_report,
                             prompt_commit_diff = commit_diff,
                             prompt_requested_path = requested_path,
                             prompt_style = output_style gen\<rparr>;
                   ev_chat = ev_read @ (if fix_chat gen then [] else [CreatedChat])
               in if \<not> fix_chat gen \<and> \<not> create_chat svc then (Inl ChatCreationFailed, ev_chat)
                  else
                    let ev_sent = ev_chat @ [SentMessage prompt]
                    in case send_message svc prompt of
                         None \<Rightarrow> (Inl (FailedToGenerate file_path SendFailed), ev_sent)
                       | Some response \<Rightarrow>
                           (case fix_from_response (output_style gen) include_usage
                                   original_content response of
                              Inl e \<Rightarrow> (Inl (FailedToGenerate file_path e), ev_sent)
                            | Inr fixed \<Rightarrow> (Inr fixed, ev_sent)))"


section \<open>Refinement of unsure entries (analysis/refinement.py)\<close>

datatype needed_info = file_overview | file_metadata | raw_content | other_info string

record unsure_entry =
  path :: string
  is_dir :: bool
  reason :: string
  needed_info :: needed_info

record refinement_decision =
  decision_path :: string
  related :: bool
  confidence :: confidence
  reasoning :: string

record refine_stats =
  stats_path :: string
  stats_decision :: string
  stats_confidence :: confidence
  stats_reasoning :: string

datatype extra =
    ExtraDirectory
  | ExtraError string
  | ExtraOverview "string list"
  | ExtraRaw string bool nat

record round_answers =
  \<comment> \<open>what the tasks of one round are answered, by the position of the task\<close>
  needed_info_answer :: "nat \<Rightarrow> unsure_entry \<Rightarrow> extra option"
     \<comment> \<open>\<open>resolve_needed_info_async\<close>; \<open>None\<close>: it raises\<close>
  verdict_answer :: "nat \<Rightarrow> unsure_entry \<Rightarrow> extra \<Rightarrow> string + refinement_decision"
     \<comment> \<open>the refinement chat's parsed decision; \<open>Inl e\<close>: the call raises \<open>e\<close>\<close>
  subfolder_answer :: "nat \<Rightarrow> string \<Rightarrow> (string list \<times> unsure_entry list) option"
     \<comment> \<open>\<open>analyze_subfolder_async\<close> for a folder of the batch; \<open>None\<close>: the task raises\<close>
  discovered_answer :: "nat \<Rightarrow> string \<Rightarrow> (string list \<times> unsure_entry list) option"
     \<comment> \<open>\<open>analyze_subfolder_async\<close> for a discovered folder; \<open>None\<close>: the task raises\<close>

definition refine_entry_async ::
  "disk \<Rightarrow> string \<Rightarrow> (unsure_entry \<Rightarrow> extra option)
     \<Rightarrow> (unsure_entry \<Rightarrow> extra \<Rightarrow> string + refinement_decision)
     \<Rightarrow> unsure_entry \<Rightarrow> unsure_entry \<times> refinement_decision option" where
  \<comment> \<open>the entry as the task leaves it (its path is assigned in place) and the decision;
      \<open>None\<close>: the task raises\<close>
  "refine_entry_async d root_dir info chat entry =
     (let resolved_path = resolve_repo_path d root_dir (path entry);
          entry = (if resolved_path \<noteq> path entry then entry\<lparr>path := resolved_path\<rparr> else entry)
      in case info entry of
           None \<Rightarrow> (entry, None)
         | Some ExtraDirectory \<Rightarrow>
             (entry, Some \<lparr>decision_path = path entry, related = True, confidence = High,
                reasoning = ''Directory detected - should be analyzed as subfolder''\<rparr>)
         | Some (ExtraError err) \<Rightarrow>
             (entry, Some \<lparr>decision_path = path entry, related = False, confidence = Low,
                reasoning = ''Error accessing file: '' @ err @ '' - assuming not impacted''\<rparr>)
         | Some ex \<Rightarrow>
             (case chat entry ex of
                Inl e \<Rightarrow>
                  (entry, Some \<lparr>decision_path = path entry, related = False, confidence = Low,
                     reasoning = ''Error during refinement: '' @ e
                                   @ '' - pruning as not impacted''\<rparr>)
              | Inr decision \<Rightarrow> (entry, Some decision)))"

datatype task =
    FolderTask string
  | FileTask unsure_entry

datatype task_result =
    TaskRaised
  | FolderResult "string list" "unsure_entry list"
  | FileResult refinement_decision

record batch_result =
  batch_sure :: "string list"
  batch_unsure :: "unsure_entry list"
  folders_to_analyze :: "string list"
  batch_stats :: "refine_stats list"

definition make_task :: "disk \<Rightarrow> string \<Rightarrow> int \<Rightarrow> unsure_entry \<Rightarrow> task" where
  \<comment> \<open>the body of the loop that creates the tasks\<close>
  "make_task d root_dir max_depth entry =
     (if is_dir entry \<and> is_folder_at_max_depth d (path entry) root_dir max_depth then
        FolderTask (path entry)
      else FileTask entry)"

definition run_task ::
  "disk \<Rightarrow> string \<Rightarrow> round_answers \<Rightarrow> nat \<times> task \<Rightarrow> task \<times> task_result" where
  \<comment> \<open>one task of \<open>asyncio.gather(..., return_exceptions=True)\<close>: the task, whose entry the
      refinement may have assigned to, and its result\<close>
  "run_task d root_dir answers it =
     (case snd it of
        FolderTask folder_path \<Rightarrow>
          (FolderTask folder_path,
           case subfolder_answer answers (fst it) folder_path of
             None \<Rightarrow> TaskRaised
           | Some (sure_files, unsure_entries) \<Rightarrow> FolderResult sure_files unsure_entries)
      | FileTask entry \<Rightarrow>
          (case refine_entry_async d root_dir (needed_info_answer answers (fst it))
                  (verdict_answer answers (fst it)) entry of
             (entry', None) \<Rightarrow> (FileTask entry', TaskRaised)
           | (entry', Some decision) \<Rightarrow> (FileTask entry', FileResult decision)))"

definition process_result :: "batch_result \<Rightarrow> task \<times> task_result \<Rightarrow> batch_result" where
  \<comment> \<open>the body of the loop over \<open>zip(tasks, results)\<close>\<close>
  "process_result acc tr =
     (case tr of
        (FileTask item, TaskRaised) \<Rightarrow> acc\<lparr>batch_unsure := batch_unsure acc @ [item]\<rparr>
      | (FolderTask item, TaskRaised) \<Rightarrow> acc
      | (FolderTask folder_path, FolderResult sure_files unsure_entries) \<Rightarrow>
          acc\<lparr>batch_sure := batch_sure acc @ sure_files,
              batch_unsure := batch_unsure acc @ unsure_entries\<rparr>
      | (FileTask entry, FileResult decision) \<Rightarrow>
          (let stats = \<lparr>stats_path = path entry,
                        stats_decision = (if related decision then ''related'' else ''not_related''),
                        stats_confidence = confidence decision,
                        stats_reasoning = reasoning decision\<rparr>;
               acc = acc\<lparr>batch_stats := batch_stats acc @ [stats]\<rparr>
           in if contains_str ''Directory detected'' (reasoning decision) then
                acc\<lparr>folders_to_analyze := folders_to_analyze acc @ [path entry]\<rparr>
              else if related decision then acc\<lparr>batch_sure := batch_sure acc @ [path entry]\<rparr>
              else acc)
      | _ \<Rightarrow> acc)"

definition process_refinement_batch ::
  "disk \<Rightarrow> string \<Rightarrow> int \<Rightarrow> round_answers \<Rightarrow> unsure_entry list \<Rightarrow> batch_result" where
  "process_refinement_batch d root_dir max_depth answers entries =
     (let tasks = map (make_task d root_dir max_depth) entries;
          results = map (run_task d root_dir answers) (enumerate 0 tasks)
      in foldl process_result
           \<lparr>batch_sure = [], batch_unsure = [], folders_to_analyze = [], batch_stats = []\<rparr>
           results)"


section \<open>The refinement loop and the final list (main.py)\<close>

definition max_iterations :: nat where
  "max_iterations = 3"

record loop_state =
  iteration :: nat
  final_sure :: "string list"
  remaining_unsure :: "unsure_entry list"
  refinement_stats :: "refine_stats list"

definition merge_folder_result ::
  "(nat \<Rightarrow> string \<Rightarrow> (string list \<times> unsure_entry list) option)
     \<Rightarrow> string list \<times> unsure_entry list \<Rightarrow> nat \<times> string
     \<Rightarrow> string list \<times> unsure_entry list" where
  \<comment> \<open>the body of \<open>for folder_path, result in zip(folders_to_analyze, folder_results)\<close>\<close>
  "merge_folder_result answer acc it =
     (case answer (fst it) (snd it) of
        None \<Rightarrow> acc
      | Some (sure_files, unsure_entries) \<Rightarrow> (fst acc @ sure_files, snd acc @ unsure_entries))"

definition escalate_entry ::
  "disk \<Rightarrow> string \<Rightarrow> int \<Rightarrow> nat \<Rightarrow> unsure_entry \<Rightarrow> unsure_entry list" where
  \<comment> \<open>the body of \<open>for entry in remaining_unsure.copy()\<close>: what it appends to
      \<open>escalated_entries\<close> (\<open>pruned_count\<close> is only printed)\<close>
  "escalate_entry d root_dir max_depth iter entry =
     (if iter < max_iterations then
        (if needed_info entry = file_overview \<or> needed_info entry = file_metadata then
           [\<lparr>path = path entry, is_dir = is_dir entry,
             reason = ''Escalated from overview: '' @ reason entry,
             needed_info = raw_content\<rparr>]
         else if needed_info entry = raw_content then []
         else if is_dir entry then
           (if \<not> is_folder_at_max_depth d (path entry) root_dir max_depth then [entry] else [])
         else [])
      else [])"

definition refinement_round ::
  "disk \<Rightarrow> string \<Rightarrow> int \<Rightarrow> (nat \<Rightarrow> round_answers) \<Rightarrow> loop_state \<Rightarrow> loop_state" where
  \<comment> \<open>the body of \<open>while remaining_unsure and iteration < max_iterations\<close>\<close>
  "refinement_round d root_dir max_depth answers st =
     (let iter = iteration st + 1;
          current_batch = remaining_unsure st;
          batch = process_refinement_batch d root_dir max_depth (answers iter) current_batch;
          sure1 = final_sure st @ batch_sure batch;
          unsure1 = batch_unsure batch;
          merged = foldl (merge_folder_result (discovered_answer (answers iter)))
                     (sure1, unsure1) (enumerate 0 (folders_to_analyze batch));
          escalated_entries =
            concat (map (escalate_entry d root_dir max_depth iter) (snd merged))
      in \<lparr>iteration = iter,
          final_sure = fst merged,
          remaining_unsure = escalated_entries,
          refinement_stats = refinement_stats st @ batch_stats batch\<rparr>)"

lemma iteration_refinement_round:
  "iteration (refinement_round d root_dir max_depth answers st) = iteration st + 1"
  by (simp add: refinement_round_def Let_def)

function refinement_loop ::
  "disk \<Rightarrow> string \<Rightarrow> int \<Rightarrow> (nat \<Rightarrow> round_answers) \<Rightarrow> loop_state \<Rightarrow> loop_state" where
  "refinement_loop d root_dir max_depth answers st =
     (if remaining_unsure st \<noteq> [] \<and> iteration st < max_iterations then
        refinement_loop d root_dir max_depth answers
          (refinement_round d root_dir max_depth answers st)
      else st)"
  by pat_completeness auto
termination
  by (relation "measure (\<lambda>(d, root_dir, max_depth, answers, st). max_iterations - iteration st)")
     (auto simp: iteration_refinement_round)

declare refinement_loop.simps [simp del]

definition run_refinement ::
  "disk \<Rightarrow> string \<Rightarrow> int \<Rightarrow> (nat \<Rightarrow> round_answers) \<Rightarrow> string list \<Rightarrow> unsure_entry list
     \<Rightarrow> loop_state" where
  \<comment> \<open>the loop from \<open>iteration = 0\<close>, on the lists the earlier stages have built\<close>
  "run_refinement d root_dir max_depth answers sure unsure =
     refinement_loop d root_dir max_depth answers
       \<lparr>iteration = 0, final_sure = sure, remaining_unsure = unsure, refinement_stats = []\<rparr>"

fun dedup_loop ::
  "disk \<Rightarrow> string \<Rightarrow> string list \<Rightarrow> string set \<Rightarrow> string list \<Rightarrow> string list" where
  \<comment> \<open>the \<open>for path in final_sure\<close> loop, from \<open>normalized_final\<close> and \<open>seen_paths\<close>\<close>
  "dedup_loop d root_dir normalized_final seen_paths [] = normalized_final"
| "dedup_loop d root_dir normalized_final seen_paths (p # ps) =
     (let resolved = resolve_repo_path d root_dir p;
          normalized = normalize_path resolved
      in if normalized \<notin> seen_paths then
           dedup_loop d root_dir (normalized_final @ [normalized])
             (insert normalized seen_paths) ps
         else dedup_loop d root_dir normalized_final seen_paths ps)"

definition dedup_final_sure :: "disk \<Rightarrow> string \<Rightarrow> string list \<Rightarrow> string list" where
  "dedup_final_sure d root_dir sure = dedup_loop d root_dir [] {} sure"


section \<open>Example inputs\<close>

text \<open>A small repository, a generator and canned answers of the model, used to run the
  definitions above on concrete inputs.\<close>

definition headers_only_example :: string where
  "headers_only_example = join_str [LF] [''--- a/app.py'', ''+++ b/app.py'']"

definition two_hunk_original :: string where
  "two_hunk_original = concat (map (\<lambda>l. l @ [LF]) [''a'', ''b'', ''c'', ''d'', ''e''])"


definition file_header_lines :: "string list" where
  "file_header_lines = [''--- a/f.txt'', ''+++ b/f.txt'']"






definition unrecognized_line_diff :: string where
  "unrecognized_line_diff =
     join_str [LF] (file_header_lines @ [''@@ -1,2 +1,2 @@'', '' a'', ''?b'', ''+B''])"

definition blank_line_diff :: string where
  "blank_line_diff = join_str [LF] [''--- a/f.txt'', ''+++ b/f.txt'', ''@@ -1 +1,3 @@'', '' a'', '''', ''+b'']"

definition example_disk :: disk where
  "example_disk =
     \<lparr>path_exists = (\<lambda>p. normpath p \<in> set [''/repo'', ''/repo/a.py'', ''/repo/src'', ''/repo/src/util.py'']),
      path_isdir = (\<lambda>p. normpath p \<in> set [''/repo'', ''/repo/src'']),
      rglob = (\<lambda>r n. Some (if n = ''a.py'' then [''/repo/a.py'']
                            else if n = ''util.py'' then [''/repo/src/util.py''] else [])),
      relpath = (\<lambda>p start. drop (length start + 1) p),
      similarity = (\<lambda>a b. 0),
      read_file = (\<lambda>p. if normpath p = ''/repo/a.py'' then Some (''x = 1'' @ [LF])
                         else if normpath p = ''/repo/src/util.py'' then Some (''import a'' @ [LF])
                         else None)\<rparr>"

definition overview_entry :: unsure_entry where
  "overview_entry =
     \<lparr>path = ''src/util.py'', is_dir = False, reason = ''may import the changed module'',
      needed_info = file_overview\<rparr>"

definition low_verdict :: "bool \<Rightarrow> nat \<Rightarrow> round_answers" where
  "low_verdict rel n =
     \<lparr>needed_info_answer = (\<lambda>i e. Some (ExtraOverview [''def helper()''])),
      verdict_answer = (\<lambda>i e x. Inr \<lparr>decision_path = path e, related = rel, confidence = Low,
                                    reasoning = ''headers alone do not settle it''\<rparr>),
      subfolder_answer = (\<lambda>i p. Some ([], [])),
      discovered_answer = (\<lambda>i p. Some ([], []))\<rparr>"


definition needs_update_report :: "bool \<Rightarrow> detailed_impact_report" where
  "needs_update_report b =
     \<lparr>report_path = ''./a.py'', report_related = True, report_confidence = High,
      analysis = \<lparr>impact = Direct, impact_description = ''calls the renamed function''\<rparr>,
      diagnosis = \<lparr>needs_update = b, update_rationale = ''the call site must follow''\<rparr>,
      recommendations = \<lparr>recommended_actions = [''rename the call'']\<rparr>\<rparr>"

definition example_generator :: "output_style \<Rightarrow> code_fix_generator" where
  "example_generator style = \<lparr>root_path = ''/repo'', output_style = style, fix_chat = False\<rparr>"

definition answering :: "string \<Rightarrow> model_service" where
  "answering text =
     \<lparr>create_chat = True,
      send_message = (\<lambda>p. Some \<lparr>content = text, response_usage = None\<rparr>)\<rparr>"

definition fenced_blank :: string where
  "fenced_blank = join_str [LF] [fence @ ''diff'', ''   '', fence]"


section \<open>Auxiliary facts\<close>

lemma startswith_prefix: "startswith p s = prefix p s"
  unfolding startswith_def
  by (metis append_eq_conv_conj prefix_def)

lemma contains_str_sublist: "contains_str sub s = sublist sub s"
  by (induction s) (simp_all add: startswith_prefix sublist_Cons_right)

lemma sublist_prepend: "sublist l s \<Longrightarrow> sublist l (p @ s)"
  unfolding sublist_def by (metis append.assoc)

lemma splitlines_from_sublist:
  "l \<in> set (splitlines_from False cur s) \<Longrightarrow> sublist l (cur @ s)"
proof (induction "False" cur s rule: splitlines_from.induct)
  case (1 cur)
  then show ?case by (simp split: if_splits)
next
  case (2 cur c)
  then show ?case by (auto split: if_splits)
next
  case (3 cur c d cs)
  show ?case
  proof (cases "c = CR \<and> d = LF")
    case True
    with 3 have "l = cur \<or> sublist l ([] @ cs)" by auto
    then show ?thesis
    proof
      assume "l = cur" then show ?thesis by simp
    next
      assume "sublist l ([] @ cs)"
      then have "sublist l ((cur @ [c, d]) @ cs)" using sublist_prepend[of l cs "cur @ [c, d]"] by simp
      then show ?thesis by simp
    qed
  next
    case False
    note nf = this
    show ?thesis
    proof (cases "is_linebreak c")
      case True
      with nf 3 have "l = cur \<or> sublist l ([] @ d # cs)" by auto
      then show ?thesis
      proof
        assume "l = cur" then show ?thesis by simp
      next
        assume "sublist l ([] @ d # cs)"
        then have "sublist l ((cur @ [c]) @ d # cs)" using sublist_prepend[of l "d # cs" "cur @ [c]"] by simp
        then show ?thesis by simp
      qed
    next
      case False
      with nf 3 have "sublist l ((cur @ [c]) @ d # cs)" by auto
      then show ?thesis by simp
    qed
  qed
qed

lemma splitlines_line_contains:
  assumes "l \<in> set (splitlines s)" "startswith p l"
  shows "contains_str p s"
proof -
  from assms(1) have "sublist l s"
    using splitlines_from_sublist[of l "[]" s] by (simp add: splitlines_def)
  moreover from assms(2) have "sublist p l"
    by (simp add: startswith_prefix)
  ultimately show ?thesis
    by (simp add: contains_str_sublist) 
qed


lemma spec_example_applies:
  "apply_unified_diff (''a'' @ [LF] @ ''b'' @ [LF] @ ''c'' @ [LF])
     (join_str [LF] [''@@ -1,3 +1,3 @@'', '' a'', ''-b'', ''+B'', '' c''] @ [LF])
     = Inr (''a'' @ [LF] @ ''B'' @ [LF] @ ''c'' @ [LF])"
  by code_simp

lemma file_decision_never_requeued:
  "batch_unsure (process_result acc (FileTask entry, FileResult decision)) = batch_unsure acc"
  by (simp add: process_result_def Let_def)

lemma startswith_first:
  "\<not> startswith [c] l \<Longrightarrow> \<not> startswith (c # p) l"
  by (cases l) (auto simp: startswith_def)











lemma startswith_at_not_header:
  "startswith ''@@'' l \<Longrightarrow> \<not> startswith ''---'' l \<and> \<not> startswith ''+++'' l"
  by (cases l) (auto simp: startswith_def)


lemma hunk_body_split:
  "\<forall>x \<in> set ls. \<not> startswith ''@@'' x \<Longrightarrow>
   hunk_body original_lines (ls @ rest) p i =
     (case hunk_body original_lines ls p i of
        Inl e \<Rightarrow> Inl e
      | Inr (r, p', i') \<Rightarrow> hunk_body original_lines rest p' i')"
  by (induction ls arbitrary: p i) simp_all

lemma startswith_other_first:
  "startswith (c # p) l \<Longrightarrow> c \<noteq> d \<Longrightarrow> \<not> startswith (d # q) l"
  by (cases l) (auto simp: startswith_def)

lemma consumes_cases:
  "startswith ''---'' l \<Longrightarrow> consumes l = False"
  "startswith ''+++'' l \<Longrightarrow> consumes l = False"
  "startswith no_newline_marker l \<Longrightarrow> consumes l = False"
  "startswith '' '' l \<Longrightarrow> consumes l = True"
  "startswith ''-'' l \<Longrightarrow> \<not> startswith ''---'' l \<Longrightarrow> consumes l = True"
  "\<not> startswith '' '' l \<Longrightarrow> \<not> startswith ''-'' l \<Longrightarrow> consumes l = False"
  unfolding consumes_def no_newline_marker_def
  by (auto dest: startswith_other_first[where d = "CHR '' ''" and q = "[]"]
                 startswith_other_first[where d = "CHR ''-''" and q = "[]"]
                 startswith_other_first[where d = "CHR ''-''" and q = "''--''"])

lemma hunk_body_advance:
  "\<forall>x \<in> set ls. \<not> startswith ''@@'' x \<Longrightarrow>
   hunk_body original_lines ls p i = Inr (r, p', i') \<Longrightarrow> r = [] \<and> i' = i + advance ls"
proof (induction ls arbitrary: p i)
  case Nil
  then show ?case by (simp add: advance_def)
next
  case (Cons l ls)
  from Cons.prems(1) have nl: "\<not> startswith ''@@'' l" and nls: "\<forall>x \<in> set ls. \<not> startswith ''@@'' x"
    by simp_all
  note ih = Cons.IH[OF nls]
  consider (skip) "startswith ''---'' l \<or> startswith ''+++'' l"
    | (mark) "\<not> (startswith ''---'' l \<or> startswith ''+++'' l)" "startswith no_newline_marker l"
    | (ctx) "\<not> (startswith ''---'' l \<or> startswith ''+++'' l)" "\<not> startswith no_newline_marker l"
            "startswith '' '' l"
    | (rem) "\<not> (startswith ''---'' l \<or> startswith ''+++'' l)" "\<not> startswith no_newline_marker l"
            "\<not> startswith '' '' l" "startswith ''-'' l"
    | (other) "\<not> (startswith ''---'' l \<or> startswith ''+++'' l)" "\<not> startswith no_newline_marker l"
            "\<not> startswith '' '' l" "\<not> startswith ''-'' l"
    by blast
  then show ?case
  proof cases
    case skip
    then have c: "consumes l = False" by (auto simp: consumes_cases)
    from skip nl Cons.prems(2) have "hunk_body original_lines ls p i = Inr (r, p', i')" by simp
    from ih[OF this] c show ?thesis by (simp add: advance_def)
  next
    case mark
    then have c: "consumes l = False" by (simp add: consumes_cases)
    from mark nl Cons.prems(2) obtain q where "hunk_body original_lines ls q i = Inr (r, p', i')"
      by (simp split: if_splits)
    from ih[OF this] c show ?thesis by (simp add: advance_def)
  next
    case ctx
    then have c: "consumes l = True" by (simp add: consumes_cases)
    from ctx nl Cons.prems(2) obtain q where "hunk_body original_lines ls q (i + 1) = Inr (r, p', i')"
      by (simp split: if_splits)
    from ih[OF this] c show ?thesis by (simp add: advance_def)
  next
    case rem
    then have c: "consumes l = True" by (simp add: consumes_cases)
    from rem nl Cons.prems(2) have "hunk_body original_lines ls p (i + 1) = Inr (r, p', i')"
      by simp
    from ih[OF this] c show ?thesis by (simp add: advance_def)
  next
    case other
    then have c: "consumes l = False" by (simp add: consumes_cases)
    from other nl Cons.prems(2) obtain q where "hunk_body original_lines ls q i = Inr (r, p', i')"
      by (simp split: if_splits)
    from ih[OF this] c show ?thesis by (simp add: advance_def)
  qed
qed

lemma hunk_body_before_header:
  "startswith ''@@'' hdr \<Longrightarrow>
   hunk_body original_lines (ls @ hdr # rest) p i =
     (case hunk_body original_lines ls p i of
        Inl e \<Rightarrow> Inl e
      | Inr (r, p', i') \<Rightarrow> Inr (r @ hdr # rest, p', i'))"
  by (induction ls arbitrary: p i) simp_all

lemma apply_loop_before_header:
  "startswith ''@@'' hdr \<Longrightarrow>
   apply_loop original_lines (pre @ hdr # rest) p i =
     (case apply_loop original_lines pre p i of
        Inl e \<Rightarrow> Inl e
      | Inr (p', i') \<Rightarrow> apply_loop original_lines (hdr # rest) p' i')"
proof (induction original_lines pre p i rule: apply_loop.induct)
  case (1 original_lines patched_lines orig_index)
  then show ?case by simp
next
  case (2 original_lines line ls patched_lines orig_index)
  show ?case
  proof (cases "startswith ''---'' line \<or> startswith ''+++'' line")
    case True
    with 2 show ?thesis by simp
  next
    case False
    note nf = this
    show ?thesis
    proof (cases "startswith ''@@'' line")
      case False
      with nf 2 show ?thesis by simp
    next
      case True
      show ?thesis
      proof (cases "hunk_header original_lines line patched_lines orig_index")
        case (Inl e)
        with nf True show ?thesis by simp
      next
        case (Inr st)
        obtain p1 i1 where st: "st = (p1, i1)" by (cases st)
        show ?thesis
        proof (cases "hunk_body original_lines ls p1 i1")
          case (Inl e)
          with nf True Inr st "2.prems" show ?thesis
            by (simp add: hunk_body_before_header)
        next
          case (Inr res)
          obtain r p2 i2 where res: "res = (r, p2, i2)" by (cases res)
          have hh: "hunk_header original_lines line patched_lines orig_index = Inr (p1, i1)"
            using \<open>hunk_header original_lines line patched_lines orig_index = Inr st\<close> st by simp
          have hb: "hunk_body original_lines ls p1 i1 = Inr (r, (p2, i2))"
            using Inr res by simp
          have ih: "apply_loop original_lines (r @ hdr # rest) p2 i2 =
                      (case apply_loop original_lines r p2 i2 of
                         Inl e \<Rightarrow> Inl e
                       | Inr (p', i') \<Rightarrow> apply_loop original_lines (hdr # rest) p' i')"
            by (rule "2.IH"(2)[OF nf True hh refl hb refl refl "2.prems"])
          with nf True \<open>hunk_header original_lines line patched_lines orig_index = Inr st\<close> st Inr res
            "2.prems" show ?thesis
            by (simp add: hunk_body_before_header)
        qed
      qed
    qed
  qed
qed








lemma splitlines_nonempty: "splitlines diff_text \<noteq> [] \<Longrightarrow> diff_text \<noteq> []"
  by (auto simp: splitlines_def)

lemma apply_unified_diff_with_hunks:
  assumes "\<exists>l \<in> set (splitlines diff_text). startswith ''@@'' l"
  shows "apply_unified_diff original_content diff_text =
           (case apply_loop (splitlines_keepends original_content) (splitlines diff_text) [] 0 of
              Inl e \<Rightarrow> Inl e
            | Inr (patched_lines, orig_index) \<Rightarrow>
                Inr (concat (patched_lines
                       @ drop orig_index (splitlines_keepends original_content))))"
proof -
  from assms have "splitlines diff_text \<noteq> []" by auto
  then have "diff_text \<noteq> []" by (rule splitlines_nonempty)
  moreover from assms have "list_ex (startswith ''@@'') (splitlines diff_text)"
    by (simp add: list_ex_iff)
  ultimately show ?thesis by (simp add: apply_unified_diff_def Let_def)
qed


lemma unrecognized_in_hunk:
  assumes hdr: "startswith ''@@'' hdr"
      and bb: "\<forall>x \<in> set body_before. \<not> startswith ''@@'' x"
      and l: "\<not> startswith ''@@'' l" "\<not> startswith '' '' l" "\<not> startswith ''-'' l"
             "\<not> startswith ''+'' l" "\<not> startswith no_newline_marker l" "strip l \<noteq> []"
  shows "apply_loop original_lines (pre @ hdr # body_before @ l # rest) p i =
           (case apply_loop original_lines (pre @ hdr # body_before) p i of
              Inl e \<Rightarrow> Inl e
            | Inr st \<Rightarrow> Inl (UnrecognizedLine l))"
proof -
  from l have nh: "\<not> startswith ''---'' l" "\<not> startswith ''+++'' l"
    by (auto dest: startswith_first)
  have ul: "hunk_body original_lines (l # rest) q j = Inl (UnrecognizedLine l)" for q j
    using l nh by simp
  have full: "hunk_body original_lines (body_before @ l # rest) q j =
                (case hunk_body original_lines body_before q j of
                   Inl e \<Rightarrow> Inl e | Inr res \<Rightarrow> Inl (UnrecognizedLine l))" for q j
  proof (cases "hunk_body original_lines body_before q j")
    case (Inl e)
    then show ?thesis unfolding hunk_body_split[OF bb] by (simp only: sum.case)
  next
    case (Inr res)
    obtain r p' i' where res: "res = (r, p', i')" by (cases res)
    show ?thesis unfolding hunk_body_split[OF bb] Inr res
      by (simp only: sum.case prod.case ul)
  qed
  have part: "hunk_body original_lines body_before q j = Inr res \<Longrightarrow> fst res = []" for q j res
    using hunk_body_advance[OF bb, of original_lines q j "fst res" "fst (snd res)" "snd (snd res)"]
    by simp
  have one: "apply_loop original_lines (hdr # body_before @ l # rest) q j =
               (case apply_loop original_lines (hdr # body_before) q j of
                  Inl e \<Rightarrow> Inl e | Inr st \<Rightarrow> Inl (UnrecognizedLine l))" for q j
  proof (cases "hunk_header original_lines hdr q j")
    case (Inl e)
    then show ?thesis using startswith_at_not_header[OF hdr] hdr by simp
  next
    case (Inr st)
    obtain p1 i1 where st: "st = (p1, i1)" by (cases st)
    have hh: "hunk_header original_lines hdr q j = Inr (p1, i1)" using Inr st by simp
    show ?thesis
    proof (cases "hunk_body original_lines body_before p1 i1")
      case hbe: (Inl e)
      show ?thesis
        using startswith_at_not_header[OF hdr] hdr by (simp add: hh full hbe)
    next
      case hbr: (Inr res)
      obtain r p2 i2 where res: "res = (r, p2, i2)" by (cases res)
      from part[OF hbr] res have r: "r = []" by simp
      have hbr': "hunk_body original_lines body_before p1 i1 = Inr ([], p2, i2)"
        using hbr res r by simp
      have fin: "apply_loop original_lines [] p2 i2 = Inr (p2, i2)" by simp
      show ?thesis
        using startswith_at_not_header[OF hdr] hdr by (simp add: hh full hbr')
    qed
  qed
  show ?thesis
  proof (cases "apply_loop original_lines pre p i")
    case (Inl e)
    then show ?thesis
      using apply_loop_before_header[OF hdr, of original_lines pre "body_before @ l # rest" p i]
        apply_loop_before_header[OF hdr, of original_lines pre body_before p i]
      by (simp only: sum.case)
  next
    case (Inr st)
    obtain p' i' where st: "st = (p', i')" by (cases st)
    show ?thesis
      using apply_loop_before_header[OF hdr, of original_lines pre "body_before @ l # rest" p i]
        apply_loop_before_header[OF hdr, of original_lines pre body_before p i]
      unfolding Inr st by (simp only: sum.case prod.case one)
  qed
qed


lemma extract_empty:
  "strip raw = [] \<or> diff_normalized (strip raw) = [] \<Longrightarrow> extract_diff_content raw = Inr []"
  by (auto simp: extract_diff_content_def Let_def)

lemma apply_empty_diff: "apply_unified_diff original_content [] = Inr original_content"
  by (simp add: apply_unified_diff_def)

lemma fixed_from_empty_output:
  "strip raw = [] \<or> diff_normalized (strip raw) = [] \<Longrightarrow>
   fixed_from_output Diff original_content raw = Inr (original_content, Some [])"
  by (simp add: fixed_from_output_def extract_empty apply_empty_diff)

lemma fix_from_empty_response:
  "strip (strip (content response)) = [] \<or> diff_normalized (strip (strip (content response))) = [] \<Longrightarrow>
   fix_from_response Diff include_usage original_content response =
     Inr (if include_usage then FixedWithUsageAndDiff original_content (response_usage response) (Some [])
          else FixedContent original_content)"
  by (simp add: fix_from_response_def fixed_from_empty_output)





lemma dedup_loop_inv:
  "distinct acc \<Longrightarrow> seen = set acc \<Longrightarrow>
   distinct (dedup_loop d r acc seen ps) \<and>
   set (dedup_loop d r acc seen ps)
     = set acc \<union> (\<lambda>p. normalize_path (resolve_repo_path d r p)) ` set ps"
proof (induction ps arbitrary: acc seen)
  case Nil
  then show ?case by simp
next
  case (Cons p ps)
  let ?n = "normalize_path (resolve_repo_path d r p)"
  show ?case
  proof (cases "?n \<in> seen")
    case True
    then have "dedup_loop d r acc seen (p # ps) = dedup_loop d r acc seen ps"
      by (simp add: Let_def)
    moreover have "?n \<in> set acc" using True Cons.prems by simp
    ultimately show ?thesis using Cons.IH[OF Cons.prems] by auto
  next
    case False
    then have e: "dedup_loop d r acc seen (p # ps)
                    = dedup_loop d r (acc @ [?n]) (insert ?n seen) ps"
      by (simp add: Let_def)
    have "distinct (acc @ [?n])" using False Cons.prems by simp
    moreover have "insert ?n seen = set (acc @ [?n])" using Cons.prems by simp
    ultimately show ?thesis using Cons.IH[of "acc @ [?n]" "insert ?n seen"] e by auto
  qed
qed


section \<open>Claims about the refinement loop\<close>

text \<open>
  Claim C1 (an Overview-level entry with a Low-confidence verdict in a round below the cap is
  escalated once to RawContent before it is pruned or promoted). The code does not do this:
  \<open>process_refinement_batch\<close> reads \<open>decision.confidence\<close> only to print it. A file entry
  whose task returned a decision is never appended to \<open>remaining_unsure\<close>; it goes to
  \<open>final_sure\<close> when \<open>related\<close> holds and nowhere otherwise. The theorem runs the code on one
  \<open>file_overview\<close> entry in round 1 of 3 with a \<open>low\<close> verdict: the batch leaves no unsure
  entry, the loop stops after that round with the entry dropped (\<open>related = False\<close>) or
  promoted (\<open>related = True\<close>), and no \<open>raw_content\<close> entry was ever queued.
\<close>

theorem low_confidence_not_escalated:
  "needed_info overview_entry = file_overview \<and>
   process_refinement_batch example_disk ''/repo'' 3 (low_verdict False 1) [overview_entry]
     = \<lparr>batch_sure = [], batch_unsure = [], folders_to_analyze = [],
        batch_stats = [\<lparr>stats_path = ''src/util.py'', stats_decision = ''not_related'',
                        stats_confidence = Low,
                        stats_reasoning = ''headers alone do not settle it''\<rparr>]\<rparr> \<and>
   run_refinement example_disk ''/repo'' 3 (low_verdict False) [] [overview_entry]
     = \<lparr>iteration = 1, final_sure = [], remaining_unsure = [],
        refinement_stats = [\<lparr>stats_path = ''src/util.py'', stats_decision = ''not_related'',
                        stats_confidence = Low,
                        stats_reasoning = ''headers alone do not settle it''\<rparr>]\<rparr> \<and>
   run_refinement example_disk ''/repo'' 3 (low_verdict True) [] [overview_entry]
     = \<lparr>iteration = 1, final_sure = [''src/util.py''], remaining_unsure = [],
        refinement_stats = [\<lparr>stats_path = ''src/util.py'', stats_decision = ''related'',
                        stats_confidence = Low,
                        stats_reasoning = ''headers alone do not settle it''\<rparr>]\<rparr>"
  by code_simp



text \<open>
  Claim C3: the final list has no repeated entry, and its entries are exactly the resolved
  and normalized forms of the accumulated paths: every path goes through
  \<open>resolve_repo_path\<close> and \<open>normalize_path\<close> before it is inserted, and a form already seen
  is not inserted again.
\<close>

theorem dedup_final_sure_distinct:
  "distinct (dedup_final_sure d root_dir sure) \<and>
   set (dedup_final_sure d root_dir sure)
     = (\<lambda>p. normalize_path (resolve_repo_path d root_dir p)) ` set sure"
  using dedup_loop_inv[of "[]" "{}" d root_dir sure] by (simp add: dedup_final_sure_def)

theorem dedup_final_sure_distinct_witness:
  "dedup_final_sure example_disk ''/repo''
     [''a.py'', ''./a.py'', ''src/src/util.py'', ''src//util.py'', ''a.py'']
     = [''a.py'', ''src/util.py''] \<and>
   distinct (dedup_final_sure example_disk ''/repo''
     [''a.py'', ''./a.py'', ''src/src/util.py'', ''src//util.py'', ''a.py''])"
proof -
  have "dedup_final_sure example_disk ''/repo''
     [''a.py'', ''./a.py'', ''src/src/util.py'', ''src//util.py'', ''a.py'']
     = [''a.py'', ''src/util.py'']"
    by code_simp
  with dedup_final_sure_distinct[of example_disk "''/repo''"
         "[''a.py'', ''./a.py'', ''src/src/util.py'', ''src//util.py'', ''a.py'']"]
  show ?thesis by blast
qed


section \<open>Claims about path resolution\<close>

text \<open>
  Claim C4, as amended: a candidate whose normalized form exists on disk under the normalized
  root is returned in normalized form (\<open>os.path.normpath\<close> of the candidate); the result is
  the candidate itself when the candidate is already normalized.
\<close>

theorem resolve_existing_path:
  "path_exists d (safe_join_path (normalize_path root_dir) (normalize_path candidate)) \<longrightarrow>
     resolve_repo_path d root_dir candidate = normalize_path candidate \<and>
     (normalize_path candidate = candidate \<longrightarrow> resolve_repo_path d root_dir candidate = candidate)"
proof
  assume a: "path_exists d (safe_join_path (normalize_path root_dir) (normalize_path candidate))"
  then have r: "resolve_repo_path d root_dir candidate = normalize_path candidate"
    unfolding resolve_repo_path_def Let_def by (rule if_P)
  then show "resolve_repo_path d root_dir candidate = normalize_path candidate \<and>
     (normalize_path candidate = candidate \<longrightarrow> resolve_repo_path d root_dir candidate = candidate)"
    by simp
qed

theorem resolve_existing_path_witness:
  "path_exists example_disk (safe_join_path (normalize_path ''/repo'') (normalize_path ''src//util.py'')) \<and>
   resolve_repo_path example_disk ''/repo'' ''src//util.py'' = ''src/util.py'' \<and>
   normalize_path ''src/util.py'' = ''src/util.py'' \<and>
   resolve_repo_path example_disk ''/repo'' ''src/util.py'' = ''src/util.py''"
proof -
  have a: "path_exists example_disk (safe_join_path (normalize_path ''/repo'') (normalize_path ''src//util.py''))"
    by code_simp
  have b: "normalize_path ''src//util.py'' = ''src/util.py''" by code_simp
  have c: "path_exists example_disk (safe_join_path (normalize_path ''/repo'') (normalize_path ''src/util.py''))"
    by code_simp
  have e: "normalize_path ''src/util.py'' = ''src/util.py''" by code_simp
  show ?thesis
    using a b c e resolve_existing_path[of example_disk "''/repo''" "''src//util.py''"]
      resolve_existing_path[of example_disk "''/repo''" "''src/util.py''"]
    by simp
qed

text \<open>
  Claim C4 as stated (the candidate is returned unchanged whenever it exists verbatim) fails
  for a spelling that is not normalized: with \<open>a.py\<close> in the repository, \<open>./a.py\<close> exists
  relative to the root and is returned as \<open>a.py\<close>.
\<close>

theorem resolve_existing_path_counterexample:
  "path_exists example_disk (path_join ''/repo'' ''./a.py'') \<and>
   resolve_repo_path example_disk ''/repo'' ''./a.py'' = ''a.py'' \<and>
   resolve_repo_path example_disk ''/repo'' ''./a.py'' \<noteq> ''./a.py''"
  by code_simp


section \<open>Claims about diff application\<close>

text \<open>
  Claim C5: a diff that has a line starting with \<open>---\<close> and a line starting with \<open>+++\<close> and
  no line starting with \<open>@@\<close> is applied without error and gives back the original content,
  for every original content.
\<close>

theorem headers_only_diff_is_identity:
  assumes "\<exists>l \<in> set (splitlines diff_text). startswith ''---'' l"
      and "\<exists>l \<in> set (splitlines diff_text). startswith ''+++'' l"
      and "\<not> (\<exists>l \<in> set (splitlines diff_text). startswith ''@@'' l)"
  shows "apply_unified_diff original_content diff_text = Inr original_content"
proof -
  from assms(1) have a: "contains_str ''---'' diff_text"
    by (auto intro: splitlines_line_contains)
  from assms(2) have b: "contains_str ''+++'' diff_text"
    by (auto intro: splitlines_line_contains)
  from assms(3) have c: "\<not> list_ex (startswith ''@@'') (splitlines diff_text)"
    by (simp add: list_ex_iff)
  show ?thesis
    unfolding apply_unified_diff_def using a b c by simp
qed

theorem headers_only_diff_is_identity_witness:
  "(\<exists>l \<in> set (splitlines headers_only_example). startswith ''---'' l) \<and>
   (\<exists>l \<in> set (splitlines headers_only_example). startswith ''+++'' l) \<and>
   \<not> (\<exists>l \<in> set (splitlines headers_only_example). startswith ''@@'' l) \<and>
   apply_unified_diff (''x = 1'' @ [LF]) headers_only_example = Inr (''x = 1'' @ [LF])"
proof -
  have h1: "\<exists>l \<in> set (splitlines headers_only_example). startswith ''---'' l" by code_simp
  have h2: "\<exists>l \<in> set (splitlines headers_only_example). startswith ''+++'' l" by code_simp
  have h3: "\<not> (\<exists>l \<in> set (splitlines headers_only_example). startswith ''@@'' l)" by code_simp
  from headers_only_diff_is_identity[OF h1 h2 h3] h1 h2 h3 show ?thesis by blast
qed



text \<open>
  Claim C7, as amended: a line inside a hunk body (after a hunk header, with no line starting
  with \<open>@@\<close> in between, and not itself starting with \<open>@@\<close>) that is not a context, removal
  or addition line, not the no-newline marker and not blank (empty or whitespace only) makes
  the application of the whole diff fail: with the unrecognized-line error for that line when
  the lines before it apply, and with their error otherwise. No diff with such a line applies.
\<close>

theorem unrecognized_hunk_line:
  "splitlines diff_text = pre @ hdr # body_before @ l # rest \<and> startswith ''@@'' hdr \<and>
   (\<forall>x \<in> set body_before. \<not> startswith ''@@'' x) \<and>
   \<not> startswith ''@@'' l \<and> \<not> startswith '' '' l \<and> \<not> startswith ''-'' l \<and> \<not> startswith ''+'' l \<and>
   \<not> startswith no_newline_marker l \<and> strip l \<noteq> []
   \<longrightarrow> apply_unified_diff original_content diff_text =
         (case apply_loop (splitlines_keepends original_content) (pre @ hdr # body_before) [] 0 of
            Inl e \<Rightarrow> Inl e
          | Inr st \<Rightarrow> Inl (UnrecognizedLine l)) \<and>
       isl (apply_unified_diff original_content diff_text)"
proof
  assume a: "splitlines diff_text = pre @ hdr # body_before @ l # rest \<and> startswith ''@@'' hdr \<and>
   (\<forall>x \<in> set body_before. \<not> startswith ''@@'' x) \<and>
   \<not> startswith ''@@'' l \<and> \<not> startswith '' '' l \<and> \<not> startswith ''-'' l \<and> \<not> startswith ''+'' l \<and>
   \<not> startswith no_newline_marker l \<and> strip l \<noteq> []"
  then have "\<exists>x \<in> set (splitlines diff_text). startswith ''@@'' x" by auto
  note top = apply_unified_diff_with_hunks[OF this, of original_content]
  from a have loop: "apply_loop (splitlines_keepends original_content) (splitlines diff_text) [] 0 =
          (case apply_loop (splitlines_keepends original_content) (pre @ hdr # body_before) [] 0 of
             Inl e \<Rightarrow> Inl e
           | Inr st \<Rightarrow> Inl (UnrecognizedLine l))"
    using unrecognized_in_hunk[of hdr body_before l "splitlines_keepends original_content" pre rest "[]" 0]
    by simp
  have eq: "apply_unified_diff original_content diff_text =
         (case apply_loop (splitlines_keepends original_content) (pre @ hdr # body_before) [] 0 of
            Inl e \<Rightarrow> Inl e
          | Inr st \<Rightarrow> Inl (UnrecognizedLine l))"
    unfolding top loop by (simp split: sum.split)
  moreover have "isl (apply_unified_diff original_content diff_text)"
    unfolding eq by (simp split: sum.split)
  ultimately show "apply_unified_diff original_content diff_text =
         (case apply_loop (splitlines_keepends original_content) (pre @ hdr # body_before) [] 0 of
            Inl e \<Rightarrow> Inl e
          | Inr st \<Rightarrow> Inl (UnrecognizedLine l)) \<and>
       isl (apply_unified_diff original_content diff_text)" by simp
qed

theorem unrecognized_hunk_line_witness:
  "apply_unified_diff two_hunk_original unrecognized_line_diff = Inl (UnrecognizedLine ''?b'') \<and>
   isl (apply_unified_diff two_hunk_original unrecognized_line_diff)"
proof -
  let ?hdr = "''@@ -1,2 +1,2 @@''"
  have a: "splitlines unrecognized_line_diff
             = file_header_lines @ ?hdr # ['' a''] @ ''?b'' # [''+B''] \<and>
           startswith ''@@'' ?hdr \<and>
           (\<forall>x \<in> set ['' a'']. \<not> startswith ''@@'' x) \<and>
           \<not> startswith ''@@'' ''?b'' \<and> \<not> startswith '' '' ''?b'' \<and> \<not> startswith ''-'' ''?b'' \<and>
           \<not> startswith ''+'' ''?b'' \<and> \<not> startswith no_newline_marker ''?b'' \<and>
           strip ''?b'' \<noteq> []"
    by code_simp
  have b: "apply_loop (splitlines_keepends two_hunk_original)
             (file_header_lines @ ?hdr # ['' a'']) [] 0 = Inr ([''a'' @ [LF]], 1)"
    by code_simp
  from unrecognized_hunk_line[where diff_text = unrecognized_line_diff
         and pre = file_header_lines and hdr = ?hdr and body_before = "['' a'']"
         and l = "''?b''" and rest = "[''+B'']" and original_content = two_hunk_original] a
  have "apply_unified_diff two_hunk_original unrecognized_line_diff =
          (case apply_loop (splitlines_keepends two_hunk_original)
                  (file_header_lines @ ?hdr # ['' a'']) [] 0 of
             Inl e \<Rightarrow> Inl e
           | Inr st \<Rightarrow> Inl (UnrecognizedLine ''?b'')) \<and>
        isl (apply_unified_diff two_hunk_original unrecognized_line_diff)"
    by blast
  then show ?thesis unfolding b by simp
qed

text \<open>
  Claim C7 as stated (every line that is not a context, removal or addition line or the
  marker is an error) fails for the empty line: the fifth line of the diff below is empty,
  and the diff applies, with an empty line in the result.
\<close>

theorem blank_hunk_line_counterexample:
  "splitlines blank_line_diff ! 4 = [] \<and>
   \<not> startswith '' '' [] \<and> \<not> startswith ''-'' [] \<and> \<not> startswith ''+'' [] \<and>
   \<not> startswith no_newline_marker [] \<and>
   apply_unified_diff (''a'' @ [LF]) blank_line_diff = Inr (''a'' @ [LF, LF] @ ''b'' @ [LF])"
  by code_simp


section \<open>Claims about diff extraction\<close>





section \<open>Claims about fix generation\<close>

text \<open>
  Claim C9: when the report's \<open>diagnosis.needs_update\<close> is false, \<open>generate_fix\<close> raises at
  once in either output mode: the result is the error and the list of what was asked of the
  disk and of the model is empty, so no path was resolved, no file read and no message sent.
  (\<open>generate_fix\<close> writes nothing to the disk on any path; the disk is only read.)
\<close>

theorem no_update_needed_raises:
  "\<not> needs_update (diagnosis impact_report) \<longrightarrow>
     generate_fix gen d svc file_path impact_report commit_diff include_usage
       = (Inl (NoUpdateNeeded file_path), [])"
  by (simp add: generate_fix_def)

theorem no_update_needed_raises_witness:
  "\<not> needs_update (diagnosis (needs_update_report False)) \<and>
   generate_fix (example_generator Diff) example_disk (answering ''unused'') ''./a.py''
       (needs_update_report False) None True = (Inl (NoUpdateNeeded ''./a.py''), []) \<and>
   generate_fix (example_generator FullFile) example_disk (answering ''unused'') ''./a.py''
       (needs_update_report False) None False = (Inl (NoUpdateNeeded ''./a.py''), [])"
proof -
  have a: "\<not> needs_update (diagnosis (needs_update_report False))"
    by (simp add: needs_update_report_def)
  show ?thesis
    using a
      no_update_needed_raises[of "needs_update_report False" "example_generator Diff" example_disk
         "answering ''unused''" "''./a.py''" None True]
      no_update_needed_raises[of "needs_update_report False" "example_generator FullFile" example_disk
         "answering ''unused''" "''./a.py''" None False]
    by blast
qed

text \<open>
  Claim C10: in diff mode, when the file is read, the chat is available and the model's
  answer normalizes to the empty text, \<open>generate_fix\<close> succeeds with the original content,
  however short that content is; with \<open>include_usage\<close> the diff returned with it is empty.
  Applying the empty diff is the identity. The witness also runs the full-file mode on the
  same empty answer, where the length check rejects it.
\<close>

theorem empty_diff_output_returns_original:
  fixes gen :: code_fix_generator and d :: disk and svc :: model_service
    and file_path :: string and impact_report :: detailed_impact_report
  defines "resolved \<equiv> resolve_repo_path d (root_path gen) file_path"
  defines "report \<equiv> (if resolved \<noteq> file_path then impact_report\<lparr>report_path := resolved\<rparr> else impact_report)"
  assumes upd: "needs_update (diagnosis impact_report)"
      and sty: "output_style gen = Diff"
      and rd: "read_file d (safe_join_path (root_path gen) resolved) = Some original_content"
      and chat: "fix_chat gen \<or> create_chat svc"
      and snd: "send_message svc \<lparr>prompt_file_path = resolved,
                             prompt_original_content = original_content,
                             prompt_impact_report = report,
                             prompt_commit_diff = commit_diff,
                             prompt_requested_path = file_path,
                             prompt_style = Diff\<rparr> = Some response"
      and emp: "strip (strip (content response)) = [] \<or> diff_normalized (strip (strip (content response))) = []"
  shows "fst (generate_fix gen d svc file_path impact_report commit_diff False)
           = Inr (FixedContent original_content) \<and>
         fst (generate_fix gen d svc file_path impact_report commit_diff True)
           = Inr (FixedWithUsageAndDiff original_content (response_usage response) (Some [])) \<and>
         apply_unified_diff original_content [] = Inr original_content"
proof -
  have g: "fst (generate_fix gen d svc file_path impact_report commit_diff iu)
             = (case fix_from_response Diff iu original_content response of
                  Inl e \<Rightarrow> Inl (FailedToGenerate resolved e) | Inr fixed \<Rightarrow> Inr fixed)" for iu
    using upd chat
    unfolding generate_fix_def Let_def resolved_def[symmetric] report_def[symmetric] sty
    by (auto simp: rd snd split: sum.split)
  show ?thesis
    unfolding g by (simp add: fix_from_empty_response[OF emp] apply_empty_diff)
qed

theorem empty_diff_output_returns_original_witness:
  "diff_normalized (strip (strip fenced_blank)) = [] \<and>
   fst (generate_fix (example_generator Diff) example_disk (answering fenced_blank) ''./a.py''
          (needs_update_report True) None False) = Inr (FixedContent (''x = 1'' @ [LF])) \<and>
   fst (generate_fix (example_generator Diff) example_disk (answering []) ''./a.py''
          (needs_update_report True) None False) = Inr (FixedContent (''x = 1'' @ [LF])) \<and>
   fst (generate_fix (example_generator FullFile) example_disk (answering []) ''./a.py''
          (needs_update_report True) None False) = Inl (FailedToGenerate ''a.py'' TooShort)"
proof -
  let ?gen = "example_generator Diff"
  let ?rep = "needs_update_report True"
  have upd: "needs_update (diagnosis ?rep)" by (simp add: needs_update_report_def)
  have sty: "output_style ?gen = Diff" by (simp add: example_generator_def)
  have rd: "read_file example_disk
              (safe_join_path (root_path ?gen) (resolve_repo_path example_disk (root_path ?gen) ''./a.py''))
            = Some (''x = 1'' @ [LF])"
    by code_simp
  have chat: "fix_chat ?gen \<or> create_chat (answering t)" for t by (simp add: answering_def)
  have snd: "send_message (answering t) p = Some \<lparr>content = t, response_usage = None\<rparr>" for t p
    by (simp add: answering_def)
  have e1: "strip (strip (content \<lparr>content = fenced_blank, response_usage = None\<rparr>)) = [] \<or>
            diff_normalized (strip (strip (content \<lparr>content = fenced_blank, response_usage = None\<rparr>))) = []"
    by code_simp
  have e2: "strip (strip (content \<lparr>content = [], response_usage = None\<rparr>)) = [] \<or>
            diff_normalized (strip (strip (content \<lparr>content = [], response_usage = None\<rparr>))) = []"
    by code_simp
  have n: "diff_normalized (strip (strip fenced_blank)) = []" by code_simp
  have f: "fst (generate_fix (example_generator FullFile) example_disk (answering []) ''./a.py''
          (needs_update_report True) None False) = Inl (FailedToGenerate ''a.py'' TooShort)"
    by code_simp
  note w1 = empty_diff_output_returns_original[OF upd sty rd chat snd e1]
  note w2 = empty_diff_output_returns_original[OF upd sty rd chat snd e2]
  from w1 w2 n f show ?thesis by blast
qed

end
